theory Spec2Isabelle
  imports Complex_Main
begin

section \<open>Data model (models.py, config.py)\<close>

text \<open>
  The Python classes are pydantic models; each becomes a record. Several classes share
  field names (\<open>id\<close>, \<open>status\<close>, \<open>pickup_x\<close>, ...), so every field carries a
  prefix for its class: \<open>d_\<close> for \<open>Driver\<close>, \<open>q_\<close> for \<open>RideRequest\<close>,
  \<open>p_\<close> for \<open>Rider\<close>. Coordinates and weights are finite Python floats, held as
  the real numbers they denote; Python \<open>int\<close> is \<open>int\<close>, \<open>Optional[int]\<close> is
  \<open>int option\<close>. The movement of the tick is computed on these reals; the driver
  score, which the code compares with \<open>float('inf')\<close>, is computed in float
  arithmetic (see \<open>pyfloat\<close> below).
\<close>

datatype DriverStatus = AVAILABLE | ON_TRIP | OFFLINE

datatype RequestStatus = WAITING | ASSIGNED | REJECTED | COMPLETED | FAILED

record Driver =
  d_id :: int
  d_x :: real
  d_y :: real
  d_status :: DriverStatus
  d_assigned_request_id :: "int option"

record Rider =
  p_id :: int
  p_pickup_x :: real
  p_pickup_y :: real
  p_dropoff_x :: real
  p_dropoff_y :: real

record RideRequest =
  q_id :: int
  q_rider_id :: int
  q_pickup_x :: real
  q_pickup_y :: real
  q_dropoff_x :: real
  q_dropoff_y :: real
  q_status :: RequestStatus
  q_attempts :: int
  q_assigned_driver_id :: "int option"
  q_picked_up :: bool

text \<open>
  config.py reads four numbers from the environment; they are a parameter of every
  function that uses them.
\<close>

record config =
  DISPATCH_ALPHA :: real
  DISPATCH_BETA :: real
  REJECTION_RATE :: real
  MOVE_SPEED :: real

text \<open>The defaults of config.py: 1.0, 0.1, 0.1, 1.0.\<close>

definition default_config :: config where
  "default_config =
     \<lparr>DISPATCH_ALPHA = 1, DISPATCH_BETA = 1 / 10, REJECTION_RATE = 1 / 10, MOVE_SPEED = 1\<rparr>"

text \<open>
  The module-level dictionaries \<open>drivers\<close>, \<open>riders\<close>, \<open>requests\<close> and the counter
  \<open>current_time\<close> of services/dispatch.py. A dictionary is an association list in
  insertion order, which is the order \<open>.values()\<close> iterates in.
\<close>

type_synonym driver_table = "(int \<times> Driver) list"
type_synonym request_table = "(int \<times> RideRequest) list"

record world =
  drivers :: driver_table
  riders :: "(int \<times> Rider) list"
  requests :: request_table
  current_time :: int

text \<open>
  Objects are mutated in place through references. A reference to an object held in a
  dictionary is modelled by its key; \<open>modify\<close> is the in-place update of the object
  stored under a key.
\<close>

definition modify :: "int \<Rightarrow> ('a \<Rightarrow> 'a) \<Rightarrow> (int \<times> 'a) list \<Rightarrow> (int \<times> 'a) list" where
  "modify k f t = map (\<lambda>(k', v). if k' = k then (k', f v) else (k', v)) t"

text \<open>Python truthiness of an \<open>Optional[int]\<close>: \<open>None\<close> and \<open>0\<close> are false.\<close>

definition truthy :: "int option \<Rightarrow> bool" where
  "truthy v = (case v of None \<Rightarrow> False | Some n \<Rightarrow> n \<noteq> 0)"

section \<open>Utility functions (services/dispatch.py)\<close>

definition calculate_manhattan_distance :: "real \<Rightarrow> real \<Rightarrow> real \<Rightarrow> real \<Rightarrow> real" where
  "calculate_manhattan_distance x1 y1 x2 y2 = \<bar>x1 - x2\<bar> + \<bar>y1 - y2\<bar>"

text \<open>
  The score is a Python \<open>float\<close>, and it is compared with \<open>float('inf')\<close>, so its
  model keeps what a float can be besides a number: a float is a finite real, one of the
  two infinities, or NaN. An operation on finite operands delivers \<open>fl\<close> of the exact
  result, where \<open>fl\<close> is the rounding of the platform: it yields a finite float near the
  exact value, or an infinity when the exact value is out of range. Nothing is assumed
  of \<open>fl\<close> in the definitions. Operations on infinities and NaN follow IEEE 754.
\<close>

datatype pyfloat = Finite real | PosInf | NegInf | NaN

type_synonym rounding = "real \<Rightarrow> pyfloat"

fun float_add :: "rounding \<Rightarrow> pyfloat \<Rightarrow> pyfloat \<Rightarrow> pyfloat" where
  "float_add fl (Finite x) (Finite y) = fl (x + y)"
| "float_add fl NaN b = NaN"
| "float_add fl a NaN = NaN"
| "float_add fl PosInf NegInf = NaN"
| "float_add fl NegInf PosInf = NaN"
| "float_add fl PosInf b = PosInf"
| "float_add fl NegInf b = NegInf"
| "float_add fl a PosInf = PosInf"
| "float_add fl a NegInf = NegInf"

fun float_sub :: "rounding \<Rightarrow> pyfloat \<Rightarrow> pyfloat \<Rightarrow> pyfloat" where
  "float_sub fl (Finite x) (Finite y) = fl (x - y)"
| "float_sub fl NaN b = NaN"
| "float_sub fl a NaN = NaN"
| "float_sub fl PosInf PosInf = NaN"
| "float_sub fl NegInf NegInf = NaN"
| "float_sub fl PosInf b = PosInf"
| "float_sub fl NegInf b = NegInf"
| "float_sub fl a PosInf = NegInf"
| "float_sub fl a NegInf = PosInf"

definition infinity_of_sign :: "real \<Rightarrow> pyfloat" where
  "infinity_of_sign x = (if x = 0 then NaN else if 0 < x then PosInf else NegInf)"

fun float_mul :: "rounding \<Rightarrow> pyfloat \<Rightarrow> pyfloat \<Rightarrow> pyfloat" where
  "float_mul fl (Finite x) (Finite y) = fl (x * y)"
| "float_mul fl NaN b = NaN"
| "float_mul fl a NaN = NaN"
| "float_mul fl (Finite x) PosInf = infinity_of_sign x"
| "float_mul fl (Finite x) NegInf = infinity_of_sign (- x)"
| "float_mul fl PosInf (Finite y) = infinity_of_sign y"
| "float_mul fl NegInf (Finite y) = infinity_of_sign (- y)"
| "float_mul fl PosInf PosInf = PosInf"
| "float_mul fl NegInf NegInf = PosInf"
| "float_mul fl PosInf NegInf = NegInf"
| "float_mul fl NegInf PosInf = NegInf"

fun float_abs :: "pyfloat \<Rightarrow> pyfloat" where
  "float_abs (Finite x) = Finite \<bar>x\<bar>"
| "float_abs PosInf = PosInf"
| "float_abs NegInf = PosInf"
| "float_abs NaN = NaN"

text \<open>\<open>a < b\<close> on floats: every comparison with NaN is false.\<close>

fun float_lt :: "pyfloat \<Rightarrow> pyfloat \<Rightarrow> bool" where
  "float_lt (Finite x) (Finite y) = (x < y)"
| "float_lt NaN b = False"
| "float_lt a NaN = False"
| "float_lt a NegInf = False"
| "float_lt NegInf b = True"
| "float_lt PosInf b = False"
| "float_lt a PosInf = True"

text \<open>
  \<open>calculate_manhattan_distance\<close> in float arithmetic, as \<open>calculate_driver_score\<close>
  needs it: the magnitude of the result matters there, and it overflows to infinity for
  far-apart points. (\<open>_tick_internal\<close> only tests the distance against \<open>0\<close>, which
  the exact value above decides for finite coordinates.) Coordinates and weights are
  finite floats.
\<close>

definition calculate_manhattan_distance_float ::
  "rounding \<Rightarrow> real \<Rightarrow> real \<Rightarrow> real \<Rightarrow> real \<Rightarrow> pyfloat" where
  "calculate_manhattan_distance_float fl x1 y1 x2 y2 =
     float_add fl (float_abs (float_sub fl (Finite x1) (Finite x2)))
       (float_abs (float_sub fl (Finite y1) (Finite y2)))"

definition calculate_driver_score :: "rounding \<Rightarrow> config \<Rightarrow> Driver \<Rightarrow> RideRequest \<Rightarrow> pyfloat" where
  "calculate_driver_score fl cfg driver request =
     (let eta_to_pickup =
            calculate_manhattan_distance_float fl (d_x driver) (d_y driver)
              (q_pickup_x request) (q_pickup_y request);
          num_assigned = (if truthy (d_assigned_request_id driver) then 1 else 0)
      in float_add fl (float_mul fl (Finite (DISPATCH_ALPHA cfg)) eta_to_pickup)
           (float_mul fl (Finite (DISPATCH_BETA cfg)) (Finite num_assigned)))"

definition move_towards_target :: "config \<Rightarrow> real \<Rightarrow> real \<Rightarrow> real \<Rightarrow> real \<Rightarrow> real \<times> real" where
  "move_towards_target cfg current_x current_y target_x target_y =
     (let new_x =
            (if current_x < target_x then min (current_x + MOVE_SPEED cfg) target_x
             else if current_x > target_x then max (current_x - MOVE_SPEED cfg) target_x
             else current_x);
          new_y =
            (if current_y < target_y then min (current_y + MOVE_SPEED cfg) target_y
             else if current_y > target_y then max (current_y - MOVE_SPEED cfg) target_y
             else current_y)
      in (new_x, new_y))"

text \<open>
  \<open>random.random()\<close> is a source of numbers in \<open>[0, 1)\<close>. The source is a
  sequence \<open>rnd\<close> and a position \<open>i\<close> in it; every draw reads \<open>rnd i\<close> and moves
  to \<open>i + 1\<close>.
\<close>

definition simulate_driver_rejection :: "config \<Rightarrow> (nat \<Rightarrow> real) \<Rightarrow> nat \<Rightarrow> bool" where
  "simulate_driver_rejection cfg rnd i = (rnd i < REJECTION_RATE cfg)"

text \<open>
  The selection loop that occurs three times in the source (twice in
  \<open>_dispatch_ride_internal\<close>, once in \<open>find_best_driver\<close>):
  \<^verbatim>\<open>
  for driver in available_drivers:
      score = calculate_driver_score(driver, request)
      if score < best_score:
          best_score = score
          best_driver = driver
  \<close>
  The accumulator is \<open>(best_driver, best_score)\<close>; it starts at
  \<open>(None, float('inf'))\<close>. A score that is infinite or NaN is not below
  \<open>float('inf')\<close>, so such a driver never becomes \<open>best_driver\<close>. The list holds
  references to driver objects, so each score is computed from the driver's current
  fields.
\<close>

fun best_scan ::
  "rounding \<Rightarrow> config \<Rightarrow> driver_table \<Rightarrow> RideRequest \<Rightarrow> int list \<Rightarrow> int option \<times> pyfloat
    \<Rightarrow> int option \<times> pyfloat" where
  "best_scan fl cfg ds request [] acc = acc"
| "best_scan fl cfg ds request (k # ks) (best_driver, best_score) =
     (case map_of ds k of
        None \<Rightarrow> best_scan fl cfg ds request ks (best_driver, best_score)
      | Some driver \<Rightarrow>
          (let score = calculate_driver_score fl cfg driver request
           in if float_lt score best_score
              then best_scan fl cfg ds request ks (Some k, score)
              else best_scan fl cfg ds request ks (best_driver, best_score)))"

definition find_best_driver ::
  "rounding \<Rightarrow> config \<Rightarrow> driver_table \<Rightarrow> RideRequest \<Rightarrow> int list \<Rightarrow> int option" where
  "find_best_driver fl cfg ds request exclude =
     (let available_drivers =
            map fst (filter (\<lambda>(k, driver).
              d_status driver = AVAILABLE \<and> d_id driver \<notin> set exclude) ds)
      in if available_drivers = [] then None
         else fst (best_scan fl cfg ds request available_drivers (None, PosInf)))"

section \<open>Dispatch (services/dispatch.py)\<close>

datatype error = ValueError | KeyError | HTTPException int string

record dispatch_result =
  res_request_id :: int
  res_assigned_driver_id :: "int option"
  res_attempts :: int
  res_status :: string

text \<open>
  \<open>available_drivers.remove(best_driver)\<close>: Python removes the first element that is
  the object or compares equal to it, and raises \<open>ValueError\<close> when there is none.
  Two pydantic models are equal when their fields are.
\<close>

fun list_remove :: "driver_table \<Rightarrow> int \<Rightarrow> int list \<Rightarrow> int list option" where
  "list_remove ds b [] = None"
| "list_remove ds b (k # ks) =
     (if k = b \<or> map_of ds k = map_of ds b then Some ks
      else map_option ((#) k) (list_remove ds b ks))"

text \<open>
  The \<open>while attempts_made < max_attempts\<close> loop. Until a driver accepts, it changes
  local variables only, so it returns how it was left: \<open>Accept\<close> with the accepting
  driver, the attempts made and the candidate list (the accept branch, whose assignments
  \<open>dispatch_request\<close> performs), or \<open>Stop\<close> with the attempts made (the candidate
  list ran empty, or the loop condition failed). After a rejection \<open>best_score\<close> is
  reset to \<open>float('inf')\<close> but \<open>best_driver\<close> is not reset: when no remaining
  candidate scores below infinity, \<open>best_driver\<close> is still the driver just removed, and
  the next \<open>remove\<close> raises \<open>ValueError\<close>.
\<close>

datatype offer_outcome = Accept int int "int list" nat | Stop int nat

function offer_loop ::
  "rounding \<Rightarrow> config \<Rightarrow> (nat \<Rightarrow> real) \<Rightarrow> driver_table \<Rightarrow> RideRequest \<Rightarrow> int \<Rightarrow> int list \<Rightarrow> int
    \<Rightarrow> int \<Rightarrow> nat \<Rightarrow> error + offer_outcome" where
  "offer_loop fl cfg rnd ds request max_attempts available_drivers best_driver attempts_made i =
     (if attempts_made < max_attempts then
        (if simulate_driver_rejection cfg rnd i then
           (case list_remove ds best_driver available_drivers of
              None \<Rightarrow> Inl ValueError
            | Some available_drivers' \<Rightarrow>
                (if available_drivers' \<noteq> [] then
                   (let best_driver' =
                          (case fst (best_scan fl cfg ds request available_drivers'
                                      (Some best_driver, PosInf)) of
                             None \<Rightarrow> best_driver
                           | Some b \<Rightarrow> b)
                    in offer_loop fl cfg rnd ds request max_attempts available_drivers'
                         best_driver' (attempts_made + 1) (Suc i))
                 else Inr (Stop (attempts_made + 1) (Suc i))))
         else Inr (Accept best_driver attempts_made available_drivers (Suc i)))
      else Inr (Stop attempts_made i))"
  by pat_completeness auto
termination
  by (relation "measure (\<lambda>(fl, cfg, rnd, ds, request, max_attempts, available_drivers,
        best_driver, attempts_made, i). nat (max_attempts - attempts_made))") auto

declare offer_loop.simps [simp del]

text \<open>
  The body of \<open>for request in waiting_requests\<close>. \<open>rk\<close> is the reference to the
  request; the state is the two tables, the \<open>results\<close> list and the position in the
  random source. A reference always resolves (it was taken from the table, and the call
  deletes nothing), so the \<open>None\<close> branches of the two look-ups are never taken. An
  exception ends the call; the model does not describe the world it leaves behind.
\<close>

type_synonym dispatch_state = "driver_table \<times> request_table \<times> dispatch_result list \<times> nat"

definition dispatch_request ::
  "rounding \<Rightarrow> config \<Rightarrow> (nat \<Rightarrow> real) \<Rightarrow> int list \<Rightarrow> int \<Rightarrow> dispatch_state \<Rightarrow> error + dispatch_state" where
  "dispatch_request fl cfg rnd all_available_drivers rk st =
     (case st of (ds, rs, results, i) \<Rightarrow>
      (case map_of rs rk of
         None \<Rightarrow> Inr st
       | Some request \<Rightarrow>
           (let available_drivers = all_available_drivers
            in case fst (best_scan fl cfg ds request available_drivers (None, PosInf)) of
                 None \<Rightarrow> Inr st
               | Some best_driver \<Rightarrow>
                   (let max_attempts = int (length available_drivers)
                    in case offer_loop fl cfg rnd ds request max_attempts available_drivers
                              best_driver 0 i of
                         Inl e \<Rightarrow> Inl e
                       | Inr (Accept b attempts_made avail i') \<Rightarrow>
                           (case map_of ds b of
                              None \<Rightarrow> Inr st
                            | Some driver \<Rightarrow>
                                (let rs' = modify rk (\<lambda>r. r\<lparr>q_status := ASSIGNED,
                                             q_assigned_driver_id := Some (d_id driver),
                                             q_attempts := attempts_made\<rparr>) rs;
                                     ds' = modify b (\<lambda>d. d\<lparr>d_status := ON_TRIP,
                                             d_assigned_request_id := Some (q_id request)\<rparr>) ds
                                 in case list_remove ds' b avail of
                                      None \<Rightarrow> Inl ValueError
                                    | Some avail' \<Rightarrow>
                                        (let results' = results @
                                               [\<lparr>res_request_id = q_id request,
                                                 res_assigned_driver_id = Some (d_id driver),
                                                 res_attempts = attempts_made,
                                                 res_status = ''assigned''\<rparr>]
                                         in if attempts_made \<ge> max_attempts
                                            then Inr (ds',
                                              modify rk (\<lambda>r. r\<lparr>q_status := FAILED,
                                                q_attempts := attempts_made\<rparr>) rs',
                                              results' @
                                                [\<lparr>res_request_id = q_id request,
                                                  res_assigned_driver_id = None,
                                                  res_attempts = attempts_made,
                                                  res_status = ''failed''\<rparr>], i')
                                            else Inr (ds', rs', results', i'))))
                       | Inr (Stop attempts_made i') \<Rightarrow>
                           (if attempts_made \<ge> max_attempts
                            then Inr (ds,
                              modify rk (\<lambda>r. r\<lparr>q_status := FAILED,
                                q_attempts := attempts_made\<rparr>) rs,
                              results @
                                [\<lparr>res_request_id = q_id request,
                                  res_assigned_driver_id = None,
                                  res_attempts = attempts_made,
                                  res_status = ''failed''\<rparr>], i')
                            else Inr (ds, rs, results, i'))))))"

fun dispatch_loop ::
  "rounding \<Rightarrow> config \<Rightarrow> (nat \<Rightarrow> real) \<Rightarrow> int list \<Rightarrow> int list \<Rightarrow> dispatch_state \<Rightarrow> error + dispatch_state" where
  "dispatch_loop fl cfg rnd all_available_drivers [] st = Inr st"
| "dispatch_loop fl cfg rnd all_available_drivers (rk # rks) st =
     (case dispatch_request fl cfg rnd all_available_drivers rk st of
        Inl e \<Rightarrow> Inl e
      | Inr st' \<Rightarrow> dispatch_loop fl cfg rnd all_available_drivers rks st')"

text \<open>
  \<open>_dispatch_ride_internal\<close>. It takes the float rounding, the configuration, the
  random source and the position in it, and the world,
  and returns the new world, the \<open>results\<close> list and the new position.
\<close>

definition dispatch_ride_internal ::
  "rounding \<Rightarrow> config \<Rightarrow> (nat \<Rightarrow> real) \<Rightarrow> nat \<Rightarrow> world \<Rightarrow> error + world \<times> dispatch_result list \<times> nat" where
  "dispatch_ride_internal fl cfg rnd i w =
     (let waiting_requests =
            map fst (filter (\<lambda>(k, req). q_status req = WAITING) (requests w))
      in if waiting_requests = [] then Inr (w, [], i)
         else
           (let all_available_drivers =
                  map fst (filter (\<lambda>(k, driver). d_status driver = AVAILABLE) (drivers w))
            in if all_available_drivers = [] then Inr (w, [], i)
               else
                 (case dispatch_loop fl cfg rnd all_available_drivers waiting_requests
                         (drivers w, requests w, [], i) of
                    Inl e \<Rightarrow> Inl e
                  | Inr (ds, rs, results, i') \<Rightarrow>
                      Inr (w\<lparr>drivers := ds, requests := rs\<rparr>, results, i'))))"

section \<open>Tick (services/dispatch.py)\<close>

record event =
  ev_driver_id :: int
  ev_request_id :: int
  ev_event :: string

text \<open>
  The body of \<open>for driver in drivers.values()\<close>: it may change the driver it visits, the
  request that driver points to, and the event list.
\<close>

definition tick_driver ::
  "config \<Rightarrow> Driver \<Rightarrow> request_table \<Rightarrow> event list \<Rightarrow> Driver \<times> request_table \<times> event list" where
  "tick_driver cfg driver rs updated_requests =
     (if d_status driver = ON_TRIP \<and> truthy (d_assigned_request_id driver) then
        (case d_assigned_request_id driver of
           None \<Rightarrow> (driver, rs, updated_requests)
         | Some rid \<Rightarrow>
             (case map_of rs rid of
                None \<Rightarrow> (driver, rs, updated_requests)
              | Some request \<Rightarrow>
                  (if \<not> q_picked_up request then
                     (let distance_to_pickup =
                            calculate_manhattan_distance (d_x driver) (d_y driver)
                              (q_pickup_x request) (q_pickup_y request)
                      in if distance_to_pickup > 0 then
                           (case move_towards_target cfg (d_x driver) (d_y driver)
                                   (q_pickup_x request) (q_pickup_y request) of
                              (new_x, new_y) \<Rightarrow>
                                (let driver' = driver\<lparr>d_x := new_x, d_y := new_y\<rparr>
                                 in if calculate_manhattan_distance (d_x driver') (d_y driver')
                                         (q_pickup_x request) (q_pickup_y request) = 0
                                    then (driver',
                                      modify rid (\<lambda>r. r\<lparr>q_picked_up := True\<rparr>) rs,
                                      updated_requests @
                                        [\<lparr>ev_driver_id = d_id driver',
                                          ev_request_id = q_id request,
                                          ev_event = ''reached_pickup''\<rparr>])
                                    else (driver', rs, updated_requests)))
                         else if distance_to_pickup = 0 then
                           (driver,
                            modify rid (\<lambda>r. r\<lparr>q_picked_up := True\<rparr>) rs,
                            updated_requests @
                              [\<lparr>ev_driver_id = d_id driver,
                                ev_request_id = q_id request,
                                ev_event = ''reached_pickup''\<rparr>])
                         else (driver, rs, updated_requests))
                   else
                     (let distance_to_dropoff =
                            calculate_manhattan_distance (d_x driver) (d_y driver)
                              (q_dropoff_x request) (q_dropoff_y request)
                      in if distance_to_dropoff > 0 then
                           (case move_towards_target cfg (d_x driver) (d_y driver)
                                   (q_dropoff_x request) (q_dropoff_y request) of
                              (new_x, new_y) \<Rightarrow>
                                (let driver' = driver\<lparr>d_x := new_x, d_y := new_y\<rparr>
                                 in if calculate_manhattan_distance (d_x driver') (d_y driver')
                                         (q_dropoff_x request) (q_dropoff_y request) = 0
                                    then (driver'\<lparr>d_status := AVAILABLE,
                                            d_assigned_request_id := None\<rparr>,
                                      modify rid (\<lambda>r. r\<lparr>q_status := COMPLETED,
                                        q_picked_up := False\<rparr>) rs,
                                      updated_requests @
                                        [\<lparr>ev_driver_id = d_id driver',
                                          ev_request_id = q_id request,
                                          ev_event = ''completed''\<rparr>])
                                    else (driver', rs, updated_requests)))
                         else (driver, rs, updated_requests)))))
      else (driver, rs, updated_requests))"

fun tick_loop ::
  "config \<Rightarrow> driver_table \<Rightarrow> request_table \<Rightarrow> event list
    \<Rightarrow> driver_table \<times> request_table \<times> event list" where
  "tick_loop cfg [] rs updated_requests = ([], rs, updated_requests)"
| "tick_loop cfg ((k, driver) # rest) rs updated_requests =
     (case tick_driver cfg driver rs updated_requests of
        (driver', rs', updated_requests') \<Rightarrow>
          (case tick_loop cfg rest rs' updated_requests' of
             (rest', rs'', updated_requests'') \<Rightarrow>
               ((k, driver') # rest', rs'', updated_requests'')))"

text \<open>\<open>_tick_internal\<close>: the new world and the \<open>updated_requests\<close> list.\<close>

definition tick_internal :: "config \<Rightarrow> world \<Rightarrow> world \<times> event list" where
  "tick_internal cfg w =
     (let t = current_time w + 1
      in case tick_loop cfg (drivers w) (requests w) [] of
           (ds, rs, updated_requests) \<Rightarrow>
             (w\<lparr>drivers := ds, requests := rs, current_time := t\<rparr>, updated_requests))"

section \<open>Manual reject (routers/requests.py)\<close>

text \<open>
  \<open>_reject_request_internal\<close> returns the response built from the request's fields;
  \<open>requests[request_id]\<close> raises \<open>KeyError\<close> for a missing key.
\<close>

definition reject_request_internal ::
  "rounding \<Rightarrow> config \<Rightarrow> int \<Rightarrow> int \<Rightarrow> world \<Rightarrow> error + world \<times> RideRequest" where
  "reject_request_internal fl cfg request_id driver_id w =
     (case map_of (requests w) request_id of
        None \<Rightarrow> Inl KeyError
      | Some request0 \<Rightarrow>
          (let request = request0\<lparr>q_attempts := q_attempts request0 + 1\<rparr>;
               rs = modify request_id (\<lambda>r. r\<lparr>q_attempts := q_attempts r + 1\<rparr>) (requests w)
           in case Option.bind (find_best_driver fl cfg (drivers w) request [driver_id])
                     (\<lambda>b. map_option (Pair b) (map_of (drivers w) b)) of
                Some (b, best_driver) \<Rightarrow>
                  (let request' = request\<lparr>q_status := ASSIGNED,
                         q_assigned_driver_id := Some (d_id best_driver)\<rparr>;
                       rs' = modify request_id (\<lambda>r. r\<lparr>q_status := ASSIGNED,
                         q_assigned_driver_id := Some (d_id best_driver)\<rparr>) rs;
                       ds' = modify b (\<lambda>d. d\<lparr>d_status := ON_TRIP,
                         d_assigned_request_id := Some request_id\<rparr>) (drivers w)
                   in Inr (w\<lparr>drivers := ds', requests := rs'\<rparr>, request'))
              | None \<Rightarrow>
                  (let request' = request\<lparr>q_status := FAILED,
                         q_assigned_driver_id := None\<rparr>;
                       rs' = modify request_id (\<lambda>r. r\<lparr>q_status := FAILED,
                         q_assigned_driver_id := None\<rparr>) rs
                   in Inr (w\<lparr>requests := rs'\<rparr>, request'))))"

text \<open>
  The endpoint \<open>reject_request\<close>: three checks, each an \<open>HTTPException\<close>, then the
  internal function.
\<close>

definition reject_request ::
  "rounding \<Rightarrow> config \<Rightarrow> int \<Rightarrow> int \<Rightarrow> world \<Rightarrow> error + world \<times> RideRequest" where
  "reject_request fl cfg request_id driver_id w =
     (case map_of (requests w) request_id of
        None \<Rightarrow> Inl (HTTPException 404 ''Request not found'')
      | Some request \<Rightarrow>
          if q_status request \<noteq> WAITING
          then Inl (HTTPException 400 ''Request is not in waiting status'')
          else if map_of (drivers w) driver_id = None
          then Inl (HTTPException 404 ''Driver not found'')
          else reject_request_internal fl cfg request_id driver_id w)"

section \<open>Constructors and sample data\<close>

text \<open>
  \<open>Driver(id=..., x=..., y=..., status=..., assigned_request_id=None)\<close> as
  \<open>_create_driver_internal\<close> and \<open>init_sample_data\<close> build it, and the
  \<open>RideRequest\<close> that \<open>_create_request_internal\<close> and \<open>init_sample_data\<close>
  build: waiting, no attempts, no driver, not picked up.
\<close>

definition new_driver :: "int \<Rightarrow> real \<Rightarrow> real \<Rightarrow> DriverStatus \<Rightarrow> Driver" where
  "new_driver n a b s =
     \<lparr>d_id = n, d_x = a, d_y = b, d_status = s, d_assigned_request_id = None\<rparr>"

definition new_request :: "int \<Rightarrow> int \<Rightarrow> real \<Rightarrow> real \<Rightarrow> real \<Rightarrow> real \<Rightarrow> RideRequest" where
  "new_request n rider px py dx dy =
     \<lparr>q_id = n, q_rider_id = rider, q_pickup_x = px, q_pickup_y = py,
      q_dropoff_x = dx, q_dropoff_y = dy, q_status = WAITING, q_attempts = 0,
      q_assigned_driver_id = None, q_picked_up = False\<rparr>"

text \<open>The world that \<open>init_sample_data\<close> leaves (it does not touch \<open>current_time\<close>).\<close>

definition init_sample_data :: "int \<Rightarrow> world" where
  "init_sample_data t =
     \<lparr>drivers = [(1, new_driver 1 0 0 AVAILABLE), (2, new_driver 2 5 5 AVAILABLE),
                 (3, new_driver 3 10 10 OFFLINE)],
      riders = [(1, \<lparr>p_id = 1, p_pickup_x = 2, p_pickup_y = 2,
                      p_dropoff_x = 8, p_dropoff_y = 8\<rparr>),
                (2, \<lparr>p_id = 2, p_pickup_x = 15, p_pickup_y = 15,
                      p_dropoff_x = 20, p_dropoff_y = 20\<rparr>)],
      requests = [(1, new_request 1 1 2 2 8 8), (2, new_request 2 2 15 15 20 20)],
      current_time = t\<rparr>"

text \<open>\<open>n\<close> successive calls of Tick, with the event list each call returned.\<close>

fun tick_calls :: "config \<Rightarrow> nat \<Rightarrow> world \<Rightarrow> world \<times> event list list" where
  "tick_calls cfg 0 w = (w, [])"
| "tick_calls cfg (Suc n) w =
     (case tick_internal cfg w of
        (w', evs) \<Rightarrow> (case tick_calls cfg n w' of (w'', rest) \<Rightarrow> (w'', evs # rest)))"

section \<open>Example worlds\<close>

text \<open>Worlds on which the theorems below are instantiated.\<close>

definition idle_driver :: Driver where
  "idle_driver = new_driver 1 0 0 AVAILABLE"

definition stale_driver :: Driver where
  "stale_driver = (new_driver 2 5 5 ON_TRIP)\<lparr>d_assigned_request_id := Some 9\<rparr>"

definition stale_world :: world where
  "stale_world =
     \<lparr>drivers = [(1, idle_driver), (2, stale_driver)], riders = [],
      requests = [(1, new_request 1 1 2 2 8 8)], current_time = 0\<rparr>"

definition arriving_driver :: Driver where
  "arriving_driver = (new_driver 2 (15 / 2) 8 ON_TRIP)\<lparr>d_assigned_request_id := Some 1\<rparr>"

definition riding_request :: RideRequest where
  "riding_request =
     (new_request 1 1 2 2 8 8)\<lparr>q_status := ASSIGNED, q_assigned_driver_id := Some 2,
        q_picked_up := True\<rparr>"

definition arriving_world :: world where
  "arriving_world =
     \<lparr>drivers = [(1, idle_driver), (2, arriving_driver)], riders = [],
      requests = [(1, riding_request)], current_time = 0\<rparr>"

definition always_reject_config :: config where
  "always_reject_config = default_config\<lparr>REJECTION_RATE := 1\<rparr>"

definition no_driver_world :: world where
  "no_driver_world =
     \<lparr>drivers = [(3, new_driver 3 10 10 OFFLINE)], riders = [],
      requests = [(1, new_request 1 1 2 2 8 8)], current_time = 0\<rparr>"

definition no_request_world :: world where
  "no_request_world =
     \<lparr>drivers = [(1, new_driver 1 0 0 AVAILABLE)], riders = [],
      requests = [(1, (new_request 1 1 2 2 8 8)\<lparr>q_status := COMPLETED\<rparr>)],
      current_time = 0\<rparr>"

text \<open>A random source whose every draw is \<open>0.5\<close>.\<close>

definition coin :: "nat \<Rightarrow> real" where
  "coin n = 1 / 2"

definition one_driver_world :: world where
  "one_driver_world =
     \<lparr>drivers = [(1, new_driver 1 0 0 AVAILABLE)], riders = [],
      requests = [(1, new_request 1 1 2 2 8 8), (2, new_request 2 2 15 15 20 20)],
      current_time = 0\<rparr>"

definition one_driver_world_after :: world where
  "one_driver_world_after =
     \<lparr>drivers = [(1, (new_driver 1 0 0 ON_TRIP)\<lparr>d_assigned_request_id := Some 2\<rparr>)],
      riders = [],
      requests = [(1, (new_request 1 1 2 2 8 8)\<lparr>q_status := ASSIGNED,
                        q_assigned_driver_id := Some 1\<rparr>),
                  (2, (new_request 2 2 15 15 20 20)\<lparr>q_status := ASSIGNED,
                        q_assigned_driver_id := Some 1\<rparr>)],
      current_time = 0\<rparr>"




definition scenario_A_world :: world where
  "scenario_A_world =
     \<lparr>drivers = [(1, new_driver 1 0 0 AVAILABLE)],
      riders = [(1, \<lparr>p_id = 1, p_pickup_x = 2, p_pickup_y = 2,
                      p_dropoff_x = 8, p_dropoff_y = 8\<rparr>)],
      requests = [(1, new_request 1 1 2 2 8 8)], current_time = 0\<rparr>"

text \<open>The scenario's world when the driver stands at (x, y), on its way to request 1.\<close>

definition scenario_A_trip :: "real \<Rightarrow> real \<Rightarrow> bool \<Rightarrow> int \<Rightarrow> world" where
  "scenario_A_trip x y picked t =
     scenario_A_world
       \<lparr>drivers := [(1, (new_driver 1 x y ON_TRIP)\<lparr>d_assigned_request_id := Some 1\<rparr>)],
        requests := [(1, (new_request 1 1 2 2 8 8)\<lparr>q_status := ASSIGNED,
                          q_assigned_driver_id := Some 1, q_picked_up := picked\<rparr>)],
        current_time := t\<rparr>"

definition scenario_A_done :: "int \<Rightarrow> world" where
  "scenario_A_done t =
     scenario_A_world
       \<lparr>drivers := [(1, new_driver 1 8 8 AVAILABLE)],
        requests := [(1, (new_request 1 1 2 2 8 8)\<lparr>q_status := COMPLETED,
                          q_assigned_driver_id := Some 1\<rparr>)],
        current_time := t\<rparr>"

definition reached_pickup_event :: event where
  "reached_pickup_event = \<lparr>ev_driver_id = 1, ev_request_id = 1, ev_event = ''reached_pickup''\<rparr>"

definition completed_event :: event where
  "completed_event = \<lparr>ev_driver_id = 1, ev_request_id = 1, ev_event = ''completed''\<rparr>"

definition scenario_A_config :: config where
  "scenario_A_config = default_config\<lparr>REJECTION_RATE := 0\<rparr>"

text \<open>
  An arithmetic for the concrete examples: no rounding error within the range of a
  double, and overflow to an infinity from \<open>2 ^ 1024\<close> on. The examples use it
  only on values where a double gives the same comparisons: their scores are small
  numbers that differ by far more than a rounding error, or the sum
  \<open>2 ^ 1023 + 2 ^ 1023\<close>, which is infinite in both.
\<close>

definition range_rounding :: rounding where
  "range_rounding x =
     (if 2 ^ 1024 \<le> x then PosInf else if x \<le> - (2 ^ 1024) then NegInf else Finite x)"



text \<open>
  A world in which the only driver besides driver 1 is so far from the pickup point of
  request 1 that the distance, \<open>2 ^ 1024\<close>, is beyond the range of a double.
\<close>

definition far_driver_world :: world where
  "far_driver_world =
     \<lparr>drivers = [(1, new_driver 1 0 0 AVAILABLE), (2, new_driver 2 (2 ^ 1023) 0 AVAILABLE)],
      riders = [(1, \<lparr>p_id = 1, p_pickup_x = - (2 ^ 1023), p_pickup_y = 0,
                      p_dropoff_x = 8, p_dropoff_y = 8\<rparr>)],
      requests = [(1, new_request 1 1 (- (2 ^ 1023)) 0 8 8)],
      current_time = 0\<rparr>"

definition far_driver_world_after :: world where
  "far_driver_world_after =
     \<lparr>drivers = [(1, new_driver 1 0 0 AVAILABLE), (2, new_driver 2 (2 ^ 1023) 0 AVAILABLE)],
      riders = [(1, \<lparr>p_id = 1, p_pickup_x = - (2 ^ 1023), p_pickup_y = 0,
                      p_dropoff_x = 8, p_dropoff_y = 8\<rparr>)],
      requests = [(1, (new_request 1 1 (- (2 ^ 1023)) 0 8 8)\<lparr>q_attempts := 1,
                        q_status := FAILED\<rparr>)],
      current_time = 0\<rparr>"

text \<open>
  The same world without driver 1, and a random source whose first draw is \<open>0\<close>
  (a rejection at any positive rejection rate) and whose later draws are \<open>0.5\<close>.
\<close>

definition lone_far_driver_world :: world where
  "lone_far_driver_world =
     \<lparr>drivers = [(2, new_driver 2 (2 ^ 1023) 0 AVAILABLE)],
      riders = [(1, \<lparr>p_id = 1, p_pickup_x = - (2 ^ 1023), p_pickup_y = 0,
                      p_dropoff_x = 8, p_dropoff_y = 8\<rparr>)],
      requests = [(1, new_request 1 1 (- (2 ^ 1023)) 0 8 8)],
      current_time = 0\<rparr>"

definition reject_then_accept :: "nat \<Rightarrow> real" where
  "reject_then_accept n = (if n = 0 then 0 else 1 / 2)"

section \<open>Vocabulary of the proofs\<close>

text \<open>The two dictionaries that \<open>_dispatch_ride_internal\<close> appends to \<open>results\<close>.\<close>

definition assigned_result :: "RideRequest \<Rightarrow> Driver \<Rightarrow> int \<Rightarrow> dispatch_result" where
  "assigned_result request driver a =
     \<lparr>res_request_id = q_id request, res_assigned_driver_id = Some (d_id driver),
      res_attempts = a, res_status = ''assigned''\<rparr>"

definition failed_result :: "RideRequest \<Rightarrow> int \<Rightarrow> dispatch_result" where
  "failed_result request a =
     \<lparr>res_request_id = q_id request, res_assigned_driver_id = None,
      res_attempts = a, res_status = ''failed''\<rparr>"

text \<open>
  How the driver table may change during one Dispatch call: the keys stay, ids stay, and
  a driver that changed is OnTrip with a request id. A request that the call has dealt
  with is \<open>settled\<close>: Failed with as many attempts as there were candidates, or Assigned
  to a candidate that is now OnTrip.
\<close>

definition drivers_evolve :: "driver_table \<Rightarrow> driver_table \<Rightarrow> bool" where
  "drivers_evolve ds ds' \<longleftrightarrow>
     map fst ds' = map fst ds \<and>
     (\<forall>k d. map_of ds k = Some d \<longrightarrow>
        (\<exists>d'. map_of ds' k = Some d' \<and> d_id d' = d_id d \<and>
           (d' = d \<or> d_status d' = ON_TRIP \<and> d_assigned_request_id d' \<noteq> None)))"





section \<open>Movement\<close>

text \<open>
  C5. For every current position, every target and every positive step size, one
  application of \<open>move_towards_target\<close> does not overshoot: the rectilinear distance to
  the target does not grow, and each new coordinate lies between the old coordinate and
  the target's, so it never passes the target from either side.
\<close>

theorem move_towards_target_no_overshoot:
  assumes "0 < MOVE_SPEED cfg"
    and "move_towards_target cfg cx cy tx ty = (nx, ny)"
  shows "calculate_manhattan_distance nx ny tx ty \<le> calculate_manhattan_distance cx cy tx ty
    \<and> (cx \<le> tx \<longrightarrow> cx \<le> nx \<and> nx \<le> tx) \<and> (tx \<le> cx \<longrightarrow> tx \<le> nx \<and> nx \<le> cx)
    \<and> (cy \<le> ty \<longrightarrow> cy \<le> ny \<and> ny \<le> ty) \<and> (ty \<le> cy \<longrightarrow> ty \<le> ny \<and> ny \<le> cy)"
  using assms
  by (auto simp: move_towards_target_def calculate_manhattan_distance_def Let_def
      split: if_splits)

theorem move_towards_target_no_overshoot_witness:
  "0 < MOVE_SPEED default_config
   \<and> move_towards_target default_config 0 (7 / 2) (1 / 2) 0 = (1 / 2, 5 / 2)
   \<and> calculate_manhattan_distance (1 / 2) (5 / 2) (1 / 2) 0
       \<le> calculate_manhattan_distance 0 (7 / 2) (1 / 2) 0
   \<and> (0::real) \<le> 1 / 2 \<and> (1 / 2 :: real) \<le> 1 / 2
   \<and> (0::real) \<le> 5 / 2 \<and> (5 / 2 :: real) \<le> 7 / 2"
proof -
  have s: "0 < MOVE_SPEED default_config"
    by (simp add: default_config_def)
  have m: "move_towards_target default_config 0 (7 / 2) (1 / 2) 0 = (1 / 2, 5 / 2)"
    by (simp add: move_towards_target_def default_config_def)
  from move_towards_target_no_overshoot [OF s m] s m show ?thesis
    by simp
qed

section \<open>Tick\<close>

lemma map_of_modify:
  "map_of (modify k f t) k' = (if k' = k then map_option f (map_of t k) else map_of t k')"
  by (induction t) (auto simp: modify_def)

lemma map_fst_modify: "map fst (modify k f t) = map fst t"
  by (induction t) (auto simp: modify_def)

lemma length_modify: "length (modify k f t) = length t"
  by (simp add: modify_def)

lemma tick_driver_idle:
  "d_status d \<noteq> ON_TRIP \<Longrightarrow> tick_driver cfg d rs evs = (d, rs, evs)"
  by (simp add: tick_driver_def)

lemma tick_driver_dangling:
  "Option.bind (d_assigned_request_id d) (map_of rs) = None \<Longrightarrow> tick_driver cfg d rs evs = (d, rs, evs)"
  by (auto simp: tick_driver_def split: option.splits)

lemma tick_driver_keys:
  "tick_driver cfg d rs evs = (d', rs', evs') \<Longrightarrow> map fst rs' = map fst rs"
  by (auto simp: tick_driver_def Let_def map_fst_modify split: if_splits option.splits prod.splits)

lemma tick_driver_events:
  "tick_driver cfg d rs evs = (d', rs', evs') \<Longrightarrow>
     \<exists>new. evs' = evs @ new \<and> (\<forall>e \<in> set new. ev_driver_id e = d_id d)"
  by (auto simp: tick_driver_def Let_def split: if_splits option.splits prod.splits)

lemma tick_driver_id:
  "tick_driver cfg d rs evs = (d', rs', evs') \<Longrightarrow> d_id d' = d_id d"
  by (auto simp: tick_driver_def Let_def split: if_splits option.splits prod.splits)

lemma tick_loop_append:
  "tick_loop cfg (a @ b) rs evs =
     (case tick_loop cfg a rs evs of (a', rs1, evs1) \<Rightarrow>
        (case tick_loop cfg b rs1 evs1 of (b', rs2, evs2) \<Rightarrow> (a' @ b', rs2, evs2)))"
  by (induction a arbitrary: rs evs) (auto split: prod.splits)

lemma tick_loop_length:
  "tick_loop cfg ds rs evs = (ds', rs', evs') \<Longrightarrow> length ds' = length ds"
  by (induction ds arbitrary: rs evs ds' rs' evs') (auto split: prod.splits)

lemma tick_loop_keys:
  "tick_loop cfg ds rs evs = (ds', rs', evs') \<Longrightarrow> map fst rs' = map fst rs"
proof (induction ds arbitrary: rs evs ds' rs' evs')
  case Nil then show ?case by simp
next
  case (Cons a ds)
  obtain k d where a: "a = (k, d)" by (cases a)
  obtain d1 rs1 evs1 where s: "tick_driver cfg d rs evs = (d1, rs1, evs1)" by (cases "tick_driver cfg d rs evs")
  obtain ds2 rs2 evs2 where l: "tick_loop cfg ds rs1 evs1 = (ds2, rs2, evs2)" by (cases "tick_loop cfg ds rs1 evs1")
  from Cons.prems a s l have "rs' = rs2" by simp
  with Cons.IH [OF l] tick_driver_keys [OF s] show ?case by simp
qed

lemma tick_loop_events:
  "tick_loop cfg ds rs evs = (ds', rs', evs') \<Longrightarrow>
     \<exists>new. evs' = evs @ new \<and> (\<forall>e \<in> set new. ev_driver_id e \<in> d_id ` snd ` set ds)"
proof (induction ds arbitrary: rs evs ds' rs' evs')
  case Nil then show ?case by simp
next
  case (Cons a ds)
  obtain k d where a: "a = (k, d)" by (cases a)
  obtain d1 rs1 evs1 where s: "tick_driver cfg d rs evs = (d1, rs1, evs1)" by (cases "tick_driver cfg d rs evs")
  obtain ds2 rs2 evs2 where l: "tick_loop cfg ds rs1 evs1 = (ds2, rs2, evs2)" by (cases "tick_loop cfg ds rs1 evs1")
  from Cons.prems a s l have e: "evs' = evs2" by simp
  from tick_driver_events [OF s] obtain n1 where n1: "evs1 = evs @ n1" "\<forall>e \<in> set n1. ev_driver_id e = d_id d" by blast
  from Cons.IH [OF l] obtain n2 where n2: "evs2 = evs1 @ n2" "\<forall>e \<in> set n2. ev_driver_id e \<in> d_id ` snd ` set ds" by blast
  have "evs' = evs @ (n1 @ n2)" using e n1 n2 by simp
  moreover have "\<forall>e \<in> set (n1 @ n2). ev_driver_id e \<in> d_id ` snd ` set (a # ds)"
    using n1(2) n2(2) a by auto
  ultimately show ?case by blast
qed

lemma tick_loop_idle:
  "\<forall>(k, d) \<in> set ds. d_status d \<noteq> ON_TRIP \<Longrightarrow> tick_loop cfg ds rs evs = (ds, rs, evs)"
  by (induction ds) (auto simp: tick_driver_idle)

text \<open>
  C8. In a world where no driver has status OnTrip, Tick adds exactly one to the time
  counter, returns an empty event list, and leaves every driver, rider and request as it
  was: the new world is the old one with \<open>current_time\<close> incremented.
\<close>

theorem tick_no_on_trip:
  assumes "\<forall>(k, d) \<in> set (drivers w). d_status d \<noteq> ON_TRIP"
  shows "tick_internal cfg w = (w\<lparr>current_time := current_time w + 1\<rparr>, [])"
  using tick_loop_idle [OF assms, of cfg "requests w" "[]"]
  by (simp add: tick_internal_def)

lemma dangling_preserved:
  assumes "map fst rs' = map fst rs"
    and "Option.bind v (map_of rs) = None"
  shows "Option.bind v (map_of rs') = None"
proof (cases v)
  case None then show ?thesis by simp
next
  case (Some rid)
  with assms(2) have "rid \<notin> fst ` set rs" by (simp add: map_of_eq_None_iff)
  then have "rid \<notin> fst ` set rs'" using assms(1) by (metis set_map)
  then show ?thesis using Some by (simp add: map_of_eq_None_iff)
qed

text \<open>
  C9. A driver \<open>d\<close> that is OnTrip and whose \<open>assigned_request_id\<close> does not resolve
  (it is \<open>None\<close>, or it is not a key of \<open>requests\<close>) is skipped by Tick. The table
  is split at the driver, \<open>drivers w = pre @ (k, d) # post\<close>. After the tick the
  driver stands at the same place of the table with all its fields unchanged, the tick
  returns normally (the model of \<open>_tick_internal\<close> has no failing branch, as the
  source has no raising operation there), and requests, events and the other drivers are
  exactly what the tick of the world without that driver yields. When no other driver
  carries its id, no event names it.
\<close>

theorem tick_skips_dangling_driver:
  assumes tbl: "drivers w = pre @ (k, d) # post"
    and on_trip: "d_status d = ON_TRIP"
    and dangling: "Option.bind (d_assigned_request_id d) (map_of (requests w)) = None"
  shows "\<exists>pre' post' rs' evs.
           length pre' = length pre
         \<and> tick_internal cfg w =
             (w\<lparr>drivers := pre' @ (k, d) # post', requests := rs',
                current_time := current_time w + 1\<rparr>, evs)
         \<and> tick_internal cfg (w\<lparr>drivers := pre @ post\<rparr>) =
             (w\<lparr>drivers := pre' @ post', requests := rs',
                current_time := current_time w + 1\<rparr>, evs)
         \<and> ((\<forall>(k', d') \<in> set (pre @ post). d_id d' \<noteq> d_id d)
              \<longrightarrow> (\<forall>e \<in> set evs. ev_driver_id e \<noteq> d_id d))"
proof -
  obtain pre' rs1 evs1 where p: "tick_loop cfg pre (requests w) [] = (pre', rs1, evs1)"
    by (cases "tick_loop cfg pre (requests w) []")
  obtain post' rs2 evs2 where q: "tick_loop cfg post rs1 evs1 = (post', rs2, evs2)"
    by (cases "tick_loop cfg post rs1 evs1")
  have "Option.bind (d_assigned_request_id d) (map_of rs1) = None"
    using dangling_preserved [OF tick_loop_keys [OF p] dangling] .
  then have skip: "tick_driver cfg d rs1 evs1 = (d, rs1, evs1)"
    by (rule tick_driver_dangling)
  have whole: "tick_loop cfg (pre @ (k, d) # post) (requests w) [] = (pre' @ (k, d) # post', rs2, evs2)"
    by (simp add: tick_loop_append p q skip)
  have without: "tick_loop cfg (pre @ post) (requests w) [] = (pre' @ post', rs2, evs2)"
    by (simp add: tick_loop_append p q)
  have ids: "\<forall>e \<in> set evs2. ev_driver_id e \<in> d_id ` snd ` set (pre @ post)"
    using tick_loop_events [OF without] by auto
  have "length pre' = length pre"
    using tick_loop_length [OF p] .
  moreover have "tick_internal cfg w =
      (w\<lparr>drivers := pre' @ (k, d) # post', requests := rs2,
         current_time := current_time w + 1\<rparr>, evs2)"
    using whole by (simp add: tick_internal_def tbl)
  moreover have "tick_internal cfg (w\<lparr>drivers := pre @ post\<rparr>) =
      (w\<lparr>drivers := pre' @ post', requests := rs2,
         current_time := current_time w + 1\<rparr>, evs2)"
    using without by (simp add: tick_internal_def)
  moreover have "(\<forall>(k', d') \<in> set (pre @ post). d_id d' \<noteq> d_id d)
      \<longrightarrow> (\<forall>e \<in> set evs2. ev_driver_id e \<noteq> d_id d)"
    using ids by fastforce
  ultimately show ?thesis by blast
qed

lemma tick_driver_completes:
  assumes "d_status d = ON_TRIP" and "d_assigned_request_id d = Some rid" and "rid \<noteq> 0"
    and "map_of rs rid = Some r" and "q_picked_up r"
    and "(d_x d, d_y d) \<noteq> (q_dropoff_x r, q_dropoff_y r)"
    and "move_towards_target cfg (d_x d) (d_y d) (q_dropoff_x r) (q_dropoff_y r)
           = (q_dropoff_x r, q_dropoff_y r)"
  shows "tick_driver cfg d rs evs =
           (d\<lparr>d_x := q_dropoff_x r, d_y := q_dropoff_y r, d_status := AVAILABLE,
              d_assigned_request_id := None\<rparr>,
            modify rid (\<lambda>r. r\<lparr>q_status := COMPLETED, q_picked_up := False\<rparr>) rs,
            evs @ [\<lparr>ev_driver_id = d_id d, ev_request_id = q_id r, ev_event = ''completed''\<rparr>])"
proof -
  have "calculate_manhattan_distance (d_x d) (d_y d) (q_dropoff_x r) (q_dropoff_y r) > 0"
    using assms(6) by (auto simp: calculate_manhattan_distance_def)
  then show ?thesis
    using assms by (simp add: tick_driver_def truthy_def calculate_manhattan_distance_def)
qed

lemma tick_driver_status_completed:
  assumes "tick_driver cfg d rs evs = (d', rs', evs')"
    and "map_of rs rid = Some r" and "q_status r = COMPLETED"
  shows "\<exists>r'. map_of rs' rid = Some r' \<and> q_status r' = COMPLETED"
  using assms
  by (auto simp: tick_driver_def Let_def map_of_modify split: if_splits option.splits prod.splits)

lemma tick_loop_status_completed:
  "tick_loop cfg ds rs evs = (ds', rs', evs') \<Longrightarrow> map_of rs rid = Some r \<Longrightarrow> q_status r = COMPLETED
     \<Longrightarrow> \<exists>r'. map_of rs' rid = Some r' \<and> q_status r' = COMPLETED"
proof (induction ds arbitrary: rs evs ds' rs' evs' r)
  case Nil then show ?case by simp
next
  case (Cons a ds)
  obtain k d where a: "a = (k, d)" by (cases a)
  obtain d1 rs1 evs1 where s: "tick_driver cfg d rs evs = (d1, rs1, evs1)" by (cases "tick_driver cfg d rs evs")
  obtain ds2 rs2 evs2 where l: "tick_loop cfg ds rs1 evs1 = (ds2, rs2, evs2)" by (cases "tick_loop cfg ds rs1 evs1")
  from Cons.prems(1) a s l have e: "rs' = rs2" by simp
  from tick_driver_status_completed [OF s Cons.prems(2,3)] obtain r1 where
    "map_of rs1 rid = Some r1" "q_status r1 = COMPLETED" by blast
  from Cons.IH [OF l this] e show ?case by simp
qed

text \<open>
  C6. The tick reaches driver \<open>d\<close> after the drivers \<open>pre\<close> before it in the table;
  \<open>rs1\<close> is the request table at that moment. If \<open>d\<close> is OnTrip, its request
  \<open>r\<close> has \<open>picked_up = True\<close>, \<open>d\<close> is not at the dropoff point, and the
  movement step lands exactly on the dropoff point, then the step for \<open>d\<close> sets the
  request to Completed with \<open>picked_up = False\<close>, sets the driver to Available with
  \<open>assigned_request_id = None\<close> at the dropoff point, and appends the \<open>completed\<close>
  event for the pair. At the end of that Tick the driver still has these fields, the
  request is still Completed, and the event is in the returned list. (A request id is
  never \<open>0\<close>: the counters start at \<open>1\<close>, and the source tests the id for
  truthiness.)
\<close>

theorem tick_completes_trip:
  assumes tbl: "drivers w = pre @ (k, d) # post"
    and before: "tick_loop cfg pre (requests w) [] = (pre', rs1, evs1)"
    and on_trip: "d_status d = ON_TRIP"
    and link: "d_assigned_request_id d = Some rid" "rid \<noteq> 0"
    and req: "map_of rs1 rid = Some r" "q_picked_up r"
    and away: "(d_x d, d_y d) \<noteq> (q_dropoff_x r, q_dropoff_y r)"
    and lands: "move_towards_target cfg (d_x d) (d_y d) (q_dropoff_x r) (q_dropoff_y r)
                  = (q_dropoff_x r, q_dropoff_y r)"
  shows "\<exists>rs2 w' evs r'.
           tick_driver cfg d rs1 evs1 =
             (d\<lparr>d_x := q_dropoff_x r, d_y := q_dropoff_y r, d_status := AVAILABLE,
                d_assigned_request_id := None\<rparr>, rs2,
              evs1 @ [\<lparr>ev_driver_id = d_id d, ev_request_id = q_id r,
                        ev_event = ''completed''\<rparr>])
         \<and> map_of rs2 rid = Some (r\<lparr>q_status := COMPLETED, q_picked_up := False\<rparr>)
         \<and> tick_internal cfg w = (w', evs)
         \<and> drivers w' ! length pre =
             (k, d\<lparr>d_x := q_dropoff_x r, d_y := q_dropoff_y r, d_status := AVAILABLE,
                   d_assigned_request_id := None\<rparr>)
         \<and> map_of (requests w') rid = Some r' \<and> q_status r' = COMPLETED
         \<and> \<lparr>ev_driver_id = d_id d, ev_request_id = q_id r, ev_event = ''completed''\<rparr> \<in> set evs"
proof -
  let ?d' = "d\<lparr>d_x := q_dropoff_x r, d_y := q_dropoff_y r, d_status := AVAILABLE,
                d_assigned_request_id := None\<rparr>"
  let ?rs2 = "modify rid (\<lambda>r. r\<lparr>q_status := COMPLETED, q_picked_up := False\<rparr>) rs1"
  let ?e = "\<lparr>ev_driver_id = d_id d, ev_request_id = q_id r, ev_event = ''completed''\<rparr>"
  have step: "tick_driver cfg d rs1 evs1 = (?d', ?rs2, evs1 @ [?e])"
    using tick_driver_completes [OF on_trip link req away lands] .
  have r2: "map_of ?rs2 rid = Some (r\<lparr>q_status := COMPLETED, q_picked_up := False\<rparr>)"
    using req(1) by (simp add: map_of_modify)
  obtain post' rs3 evs3 where q: "tick_loop cfg post ?rs2 (evs1 @ [?e]) = (post', rs3, evs3)"
    by (cases "tick_loop cfg post ?rs2 (evs1 @ [?e])")
  have whole: "tick_loop cfg (pre @ (k, d) # post) (requests w) [] = (pre' @ (k, ?d') # post', rs3, evs3)"
    by (simp add: tick_loop_append before step q)
  let ?w' = "w\<lparr>drivers := pre' @ (k, ?d') # post', requests := rs3,
               current_time := current_time w + 1\<rparr>"
  have t: "tick_internal cfg w = (?w', evs3)"
    using whole by (simp add: tick_internal_def tbl)
  have len: "length pre' = length pre"
    using tick_loop_length [OF before] .
  have at: "drivers ?w' ! length pre = (k, ?d')"
    using len by (simp add: nth_append)
  from tick_loop_status_completed [OF q r2] obtain r' where
    r': "map_of (requests ?w') rid = Some r'" "q_status r' = COMPLETED" by auto
  from tick_loop_events [OF q] have ev: "?e \<in> set evs3" by auto
  from step r2 t at r' ev show ?thesis by blast
qed

theorem tick_no_on_trip_witness:
  "tick_internal default_config (init_sample_data 0) = (init_sample_data 1, [])"
proof -
  have h: "\<forall>(k, d) \<in> set (drivers (init_sample_data 0)). d_status d \<noteq> ON_TRIP"
    by (simp add: init_sample_data_def new_driver_def)
  from tick_no_on_trip [OF h, of default_config] show ?thesis
    by (simp add: init_sample_data_def)
qed

theorem tick_skips_dangling_driver_witness:
  "drivers stale_world = [(1, idle_driver)] @ (2, stale_driver) # []
   \<and> d_status stale_driver = ON_TRIP
   \<and> Option.bind (d_assigned_request_id stale_driver) (map_of (requests stale_world)) = None
   \<and> (\<exists>pre' post' rs' evs.
        tick_internal default_config stale_world
        = (stale_world\<lparr>drivers := pre' @ (2, stale_driver) # post', requests := rs',
             current_time := 1\<rparr>, evs)
        \<and> tick_internal default_config (stale_world\<lparr>drivers := [(1, idle_driver)]\<rparr>)
        = (stale_world\<lparr>drivers := pre' @ post', requests := rs', current_time := 1\<rparr>, evs)
        \<and> length pre' = 1 \<and> 2 \<notin> ev_driver_id ` set evs)"
proof -
  have h1: "drivers stale_world = [(1, idle_driver)] @ (2, stale_driver) # []"
    by (simp add: stale_world_def)
  have h2: "d_status stale_driver = ON_TRIP"
    by (simp add: stale_driver_def new_driver_def)
  have h3: "Option.bind (d_assigned_request_id stale_driver) (map_of (requests stale_world)) = None"
    by (simp add: stale_driver_def stale_world_def)
  have h4: "\<forall>(k', d') \<in> set ([(1, idle_driver)] @ []). d_id d' \<noteq> d_id stale_driver"
    by (simp add: idle_driver_def stale_driver_def new_driver_def)
  have t0: "current_time stale_world + 1 = 1" "d_id stale_driver = 2"
      "[(1, idle_driver)] @ [] = [(1::int, idle_driver)]"
    by (simp_all add: stale_world_def stale_driver_def new_driver_def)
  from tick_skips_dangling_driver [OF h1 h2 h3, of default_config] h4
  have "\<exists>pre' post' rs' evs.
        tick_internal default_config stale_world
        = (stale_world\<lparr>drivers := pre' @ (2, stale_driver) # post', requests := rs',
             current_time := 1\<rparr>, evs)
        \<and> tick_internal default_config (stale_world\<lparr>drivers := [(1, idle_driver)]\<rparr>)
        = (stale_world\<lparr>drivers := pre' @ post', requests := rs', current_time := 1\<rparr>, evs)
        \<and> length pre' = 1 \<and> 2 \<notin> ev_driver_id ` set evs"
    unfolding t0 by (elim exE conjE) force
  with h1 h2 h3 show ?thesis by - (intro conjI; assumption)
qed

theorem tick_completes_trip_witness:
  "drivers arriving_world = [(1, idle_driver)] @ (2, arriving_driver) # []
   \<and> tick_loop default_config [(1, idle_driver)] (requests arriving_world) []
       = ([(1, idle_driver)], [(1, riding_request)], [])
   \<and> d_status arriving_driver = ON_TRIP
   \<and> d_assigned_request_id arriving_driver = Some 1
   \<and> map_of [(1::int, riding_request)] 1 = Some riding_request \<and> q_picked_up riding_request
   \<and> (d_x arriving_driver, d_y arriving_driver) \<noteq> (8, 8)
   \<and> move_towards_target default_config (d_x arriving_driver) (d_y arriving_driver) 8 8 = (8, 8)
   \<and> (\<exists>w' evs.
        tick_internal default_config arriving_world = (w', evs)
      \<and> drivers w' ! 1 = (2, new_driver 2 8 8 AVAILABLE)
      \<and> (\<exists>r'. map_of (requests w') 1 = Some r' \<and> q_status r' = COMPLETED)
      \<and> \<lparr>ev_driver_id = 2, ev_request_id = 1, ev_event = ''completed''\<rparr> \<in> set evs)"
proof -
  have h1: "drivers arriving_world = [(1, idle_driver)] @ (2, arriving_driver) # []"
    by (simp add: arriving_world_def)
  have h2: "tick_loop default_config [(1, idle_driver)] (requests arriving_world) []
              = ([(1, idle_driver)], [(1, riding_request)], [])"
    by (simp add: tick_driver_def idle_driver_def new_driver_def arriving_world_def)
  have h3: "d_status arriving_driver = ON_TRIP"
    by (simp add: arriving_driver_def new_driver_def)
  have h4: "d_assigned_request_id arriving_driver = Some 1" "(1::int) \<noteq> 0"
    by (simp_all add: arriving_driver_def)
  have h5: "map_of [(1::int, riding_request)] 1 = Some riding_request" "q_picked_up riding_request"
    by (simp_all add: riding_request_def)
  have dr: "q_dropoff_x riding_request = 8" "q_dropoff_y riding_request = 8" "q_id riding_request = 1"
    by (simp_all add: riding_request_def new_request_def)
  have h6: "(d_x arriving_driver, d_y arriving_driver) \<noteq> (q_dropoff_x riding_request, q_dropoff_y riding_request)"
    by (simp add: arriving_driver_def new_driver_def dr)
  have h7: "move_towards_target default_config (d_x arriving_driver) (d_y arriving_driver)
              (q_dropoff_x riding_request) (q_dropoff_y riding_request)
              = (q_dropoff_x riding_request, q_dropoff_y riding_request)"
    by (simp add: move_towards_target_def default_config_def arriving_driver_def new_driver_def dr)
  have d': "arriving_driver\<lparr>d_x := 8, d_y := 8, d_status := AVAILABLE,
              d_assigned_request_id := None\<rparr> = new_driver 2 8 8 AVAILABLE"
      "d_id arriving_driver = 2"
    by (simp_all add: arriving_driver_def new_driver_def)
  from tick_completes_trip [OF h1 h2 h3 h4 h5 h6 h7]
  have "\<exists>w' evs.
        tick_internal default_config arriving_world = (w', evs)
      \<and> drivers w' ! 1 = (2, new_driver 2 8 8 AVAILABLE)
      \<and> (\<exists>r'. map_of (requests w') 1 = Some r' \<and> q_status r' = COMPLETED)
      \<and> \<lparr>ev_driver_id = 2, ev_request_id = 1, ev_event = ''completed''\<rparr> \<in> set evs"
    unfolding dr d' by (elim exE conjE) force
  with h1 h2 h3 h4(1) h5 h6 h7 show ?thesis unfolding dr by - (intro conjI; assumption)
qed

section \<open>Dispatch\<close>















lemma map_of_keys_eq:
  assumes "map fst t' = map fst t"
  shows "map_of t' k = None \<longleftrightarrow> map_of t k = None"
proof -
  have "fst ` set t' = fst ` set t" using assms by (metis set_map)
  then show ?thesis by (simp add: map_of_eq_None_iff)
qed




lemma drivers_evolve_resolves:
  assumes "drivers_evolve ds ds'" and "\<forall>k \<in> set avail. map_of ds k \<noteq> None"
  shows "\<forall>k \<in> set avail. map_of ds' k \<noteq> None"
  using assms map_of_keys_eq [of ds' ds] by (auto simp: drivers_evolve_def)







lemma filter_keys_resolve:
  "\<forall>k \<in> set (map fst (filter P t)). map_of t k \<noteq> None"
  by (auto simp: map_of_eq_None_iff)




text \<open>
  C7. In a world where no driver is Available, or where no request is Waiting, Dispatch
  returns an empty \<open>results\<close> list, raises no error (the result is \<open>Inr\<close>), draws
  nothing from the random source, and returns the world it was given: every request,
  waiting or not, keeps all its fields.
\<close>

theorem dispatch_nothing_to_do:
  assumes "(\<forall>(k, d) \<in> set (drivers w). d_status d \<noteq> AVAILABLE)
         \<or> (\<forall>(k, r) \<in> set (requests w). q_status r \<noteq> WAITING)"
  shows "dispatch_ride_internal fl cfg rnd i w = Inr (w, [], i)"
proof -
  from assms have
    "filter (\<lambda>(k, driver). d_status driver = AVAILABLE) (drivers w) = []
     \<or> filter (\<lambda>(k, req). q_status req = WAITING) (requests w) = []"
    by (auto simp: filter_empty_conv)
  then show ?thesis
    by (auto simp: dispatch_ride_internal_def Let_def)
qed


theorem dispatch_nothing_to_do_witness:
  "dispatch_ride_internal range_rounding default_config (\<lambda>n. 1 / 2) 0 no_driver_world
     = Inr (no_driver_world, [], 0)
   \<and> dispatch_ride_internal range_rounding default_config (\<lambda>n. 1 / 2) 0 no_request_world
     = Inr (no_request_world, [], 0)"
proof -
  have h1: "(\<forall>(k, d) \<in> set (drivers no_driver_world). d_status d \<noteq> AVAILABLE)
         \<or> (\<forall>(k, r) \<in> set (requests no_driver_world). q_status r \<noteq> WAITING)"
    by (simp add: no_driver_world_def new_driver_def)
  have h2: "(\<forall>(k, d) \<in> set (drivers no_request_world). d_status d \<noteq> AVAILABLE)
         \<or> (\<forall>(k, r) \<in> set (requests no_request_world). q_status r \<noteq> WAITING)"
    by (simp add: no_request_world_def new_request_def)
  from dispatch_nothing_to_do [OF h1] dispatch_nothing_to_do [OF h2]
  show ?thesis by (intro conjI)
qed


section \<open>Dispatch on concrete worlds, and the driver of an assigned request\<close>

lemmas eval_defs = dispatch_ride_internal_def dispatch_request_def offer_loop.simps
  simulate_driver_rejection_def calculate_driver_score_def
  calculate_manhattan_distance_float_def range_rounding_def infinity_of_sign_def
  truthy_def modify_def default_config_def new_driver_def new_request_def coin_def
  assigned_result_def failed_result_def Let_def

text \<open>
  C1. The claim says that within one Dispatch call no driver is assigned to two requests.
  The code does not do that. The candidate list of every request is a copy of the list
  taken once at the start of the call, so a driver assigned to an earlier request of the
  call is still a candidate for a later one; the \<open>remove\<close> after an acceptance acts on
  the copy only. With one Available driver, two Waiting requests and two accepting draws,
  both requests are assigned to driver 1, whose \<open>assigned_request_id\<close> ends as 2.
\<close>

theorem dispatch_double_books_driver:
  "dispatch_ride_internal range_rounding default_config coin 0 one_driver_world =
     Inr (one_driver_world_after,
          [assigned_result (new_request 1 1 2 2 8 8) (new_driver 1 0 0 AVAILABLE) 0,
           assigned_result (new_request 2 2 15 15 20 20) (new_driver 1 0 0 AVAILABLE) 0],
          2)"
  by (simp add: one_driver_world_def one_driver_world_after_def eval_defs)


text \<open>
  The selection loop never takes a driver whose score is not below \<open>float('inf')\<close>.
  When the only candidate is such a driver, Dispatch skips the request: nothing is drawn,
  nothing is recorded, the request stays Waiting. When the nearest driver rejects and the
  only other candidate is such a driver, the rescan leaves \<open>best_driver\<close> at the
  driver just removed; the next draw accepts, the removed driver is assigned, and
  \<open>available_drivers.remove(best_driver)\<close> raises \<open>ValueError\<close>.
\<close>

lemma dispatch_skips_request_without_score:
  "dispatch_ride_internal range_rounding always_reject_config coin 0 lone_far_driver_world =
     Inr (lone_far_driver_world, [], 0)"
  by (simp add: lone_far_driver_world_def always_reject_config_def eval_defs)

lemma dispatch_raises_on_stale_driver:
  "dispatch_ride_internal range_rounding default_config reject_then_accept 0 far_driver_world =
     Inl ValueError"
  by (simp add: far_driver_world_def reject_then_accept_def eval_defs)





section \<open>Manual reject\<close>

lemma float_lt_trans:
  "float_lt a b \<Longrightarrow> float_lt b c \<Longrightarrow> float_lt a c"
  by (cases a; cases b; cases c) simp_all

lemma best_scan_min:
  assumes "\<forall>k \<in> set ks. map_of ds k \<noteq> None"
    and "map_of ds b0 = Some d0"
  shows "\<exists>b d. fst (best_scan fl cfg ds request ks
                    (Some b0, calculate_driver_score fl cfg d0 request)) = Some b
           \<and> map_of ds b = Some d \<and> (b = b0 \<or> b \<in> set ks)
           \<and> (calculate_driver_score fl cfg d request = calculate_driver_score fl cfg d0 request
                \<or> float_lt (calculate_driver_score fl cfg d request)
                     (calculate_driver_score fl cfg d0 request))
           \<and> (\<forall>k \<in> set ks. \<forall>dk. map_of ds k = Some dk \<longrightarrow>
                 \<not> float_lt (calculate_driver_score fl cfg dk request)
                     (calculate_driver_score fl cfg d request))"
  using assms
proof (induction ks arbitrary: b0 d0)
  case Nil
  then show ?case by simp
next
  case (Cons k ks)
  let ?s = "\<lambda>d::Driver. calculate_driver_score fl cfg d request"
  from Cons.prems(1) obtain dk where dk: "map_of ds k = Some dk" by auto
  have rest: "\<forall>k \<in> set ks. map_of ds k \<noteq> None" using Cons.prems(1) by simp
  show ?case
  proof (cases "float_lt (?s dk) (?s d0)")
    case True
    from Cons.IH [OF rest dk] obtain b d where
      r: "fst (best_scan fl cfg ds request ks (Some k, ?s dk)) = Some b"
      "map_of ds b = Some d" "b = k \<or> b \<in> set ks"
      "?s d = ?s dk \<or> float_lt (?s d) (?s dk)"
      "\<forall>k \<in> set ks. \<forall>dk. map_of ds k = Some dk \<longrightarrow> \<not> float_lt (?s dk) (?s d)"
      by blast
    from r(4) True have lt: "float_lt (?s d) (?s d0)"
      by (auto intro: float_lt_trans)
    have nk: "\<not> float_lt (?s dk) (?s d)"
    proof
      assume a: "float_lt (?s dk) (?s d)"
      from r(4) show False
      proof
        assume "?s d = ?s dk"
        with a show False by (cases "?s dk") simp_all
      next
        assume "float_lt (?s d) (?s dk)"
        with a show False by (cases "?s dk"; cases "?s d") simp_all
      qed
    qed
    have e: "best_scan fl cfg ds request (k # ks) (Some b0, ?s d0)
               = best_scan fl cfg ds request ks (Some k, ?s dk)"
      using True dk by (simp add: Let_def)
    show ?thesis
      unfolding e using r lt nk dk
      by (intro exI [of _ b] exI [of _ d]) auto
  next
    case False
    from Cons.IH [OF rest Cons.prems(2)] obtain b d where
      r: "fst (best_scan fl cfg ds request ks (Some b0, ?s d0)) = Some b"
      "map_of ds b = Some d" "b = b0 \<or> b \<in> set ks"
      "?s d = ?s d0 \<or> float_lt (?s d) (?s d0)"
      "\<forall>k \<in> set ks. \<forall>dk. map_of ds k = Some dk \<longrightarrow> \<not> float_lt (?s dk) (?s d)"
      by blast
    have nk: "\<not> float_lt (?s dk) (?s d)"
    proof
      assume a: "float_lt (?s dk) (?s d)"
      from r(4) show False
      proof
        assume "?s d = ?s d0"
        with a False show False by simp
      next
        assume "float_lt (?s d) (?s d0)"
        with a have "float_lt (?s dk) (?s d0)" by (rule float_lt_trans)
        with False show False by simp
      qed
    qed
    have e: "best_scan fl cfg ds request (k # ks) (Some b0, ?s d0)
               = best_scan fl cfg ds request ks (Some b0, ?s d0)"
      using False dk by (simp add: Let_def)
    show ?thesis
      unfolding e using r nk dk
      by (intro exI [of _ b] exI [of _ d]) auto
  qed
qed

lemma best_scan_fresh_none:
  assumes "\<forall>k \<in> set ks. \<forall>dk. map_of ds k = Some dk \<longrightarrow>
             \<not> float_lt (calculate_driver_score fl cfg dk request) PosInf"
  shows "best_scan fl cfg ds request ks (None, PosInf) = (None, PosInf)"
  using assms by (induction ks) (auto simp: Let_def split: option.splits)

lemma best_scan_fresh_min:
  assumes res: "\<forall>k \<in> set ks. map_of ds k \<noteq> None"
    and ex: "\<exists>k \<in> set ks. \<exists>dk. map_of ds k = Some dk
               \<and> float_lt (calculate_driver_score fl cfg dk request) PosInf"
  shows "\<exists>b d. fst (best_scan fl cfg ds request ks (None, PosInf)) = Some b
           \<and> b \<in> set ks \<and> map_of ds b = Some d
           \<and> float_lt (calculate_driver_score fl cfg d request) PosInf
           \<and> (\<forall>k \<in> set ks. \<forall>dk. map_of ds k = Some dk \<longrightarrow>
                 \<not> float_lt (calculate_driver_score fl cfg dk request)
                     (calculate_driver_score fl cfg d request))"
  using res ex
proof (induction ks)
  case Nil
  then show ?case by simp
next
  case (Cons k ks)
  let ?s = "\<lambda>d::Driver. calculate_driver_score fl cfg d request"
  from Cons.prems(1) obtain dk where dk: "map_of ds k = Some dk" by auto
  have rest: "\<forall>k \<in> set ks. map_of ds k \<noteq> None" using Cons.prems(1) by simp
  show ?case
  proof (cases "float_lt (?s dk) PosInf")
    case True
    have e: "best_scan fl cfg ds request (k # ks) (None, PosInf)
               = best_scan fl cfg ds request ks (Some k, ?s dk)"
      using True dk by (simp add: Let_def)
    from best_scan_min [OF rest dk, of fl cfg request] obtain b d where
      r: "fst (best_scan fl cfg ds request ks (Some k, ?s dk)) = Some b"
      "map_of ds b = Some d" "b = k \<or> b \<in> set ks"
      "?s d = ?s dk \<or> float_lt (?s d) (?s dk)"
      "\<forall>k \<in> set ks. \<forall>dk. map_of ds k = Some dk \<longrightarrow> \<not> float_lt (?s dk) (?s d)"
      by blast
    from r(4) True have lt: "float_lt (?s d) PosInf"
      by (auto intro: float_lt_trans)
    have nk: "\<not> float_lt (?s dk) (?s d)"
    proof
      assume a: "float_lt (?s dk) (?s d)"
      from r(4) show False
      proof
        assume "?s d = ?s dk"
        with a show False by (cases "?s dk") simp_all
      next
        assume "float_lt (?s d) (?s dk)"
        with a show False by (cases "?s dk"; cases "?s d") simp_all
      qed
    qed
    show ?thesis
      unfolding e using r lt nk dk
      by (intro exI [of _ b] exI [of _ d]) auto
  next
    case False
    have e: "best_scan fl cfg ds request (k # ks) (None, PosInf)
               = best_scan fl cfg ds request ks (None, PosInf)"
      using False dk by (simp add: Let_def)
    from Cons.prems(2) False dk
    have ex': "\<exists>k \<in> set ks. \<exists>dk. map_of ds k = Some dk \<and> float_lt (?s dk) PosInf"
      by auto
    from Cons.IH [OF rest ex'] obtain b d where
      r: "fst (best_scan fl cfg ds request ks (None, PosInf)) = Some b"
      "b \<in> set ks" "map_of ds b = Some d" "float_lt (?s d) PosInf"
      "\<forall>k \<in> set ks. \<forall>dk. map_of ds k = Some dk \<longrightarrow> \<not> float_lt (?s dk) (?s d)"
      by blast
    have nk: "\<not> float_lt (?s dk) (?s d)"
    proof
      assume "float_lt (?s dk) (?s d)"
      from this r(4) have "float_lt (?s dk) PosInf" by (rule float_lt_trans)
      with False show False by simp
    qed
    show ?thesis
      unfolding e using r nk dk
      by (intro exI [of _ b] exI [of _ d]) auto
  qed
qed

lemma score_ignores_attempts:
  "calculate_driver_score fl cfg d (r\<lparr>q_attempts := a\<rparr>) = calculate_driver_score fl cfg d r"
  by (simp add: calculate_driver_score_def)

text \<open>
  What the manual reject operation does in every world whose driver dictionary has
  distinct keys and stores every driver under its id, for a Waiting request \<open>r\<close> and
  the id of an existing driver. The call returns normally, the request's attempts grow by
  exactly one, and the rejecting driver's entry is what it was. If some Available driver
  other than the rejecting one has a score below \<open>float('inf')\<close>, the request
  becomes Assigned to such a driver \<open>b\<close>, than whose score no other candidate's is
  lower, and \<open>b\<close> becomes OnTrip with \<open>assigned_request_id\<close> set to the
  request. Otherwise the request becomes Failed with \<open>assigned_driver_id = None\<close>
  and no driver changes. All other requests, the riders and the time are unchanged.
\<close>

lemma reject_request_outcome:
  assumes dk: "distinct (map fst (drivers w))"
    and ids: "\<forall>(k, d) \<in> set (drivers w). d_id d = k"
    and rq: "map_of (requests w) request_id = Some r" "q_status r = WAITING"
    and dr: "map_of (drivers w) driver_id = Some rejecting"
  shows "\<exists>w' resp.
      reject_request fl cfg request_id driver_id w = Inr (w', resp)
    \<and> map_of (requests w') request_id = Some resp
    \<and> q_attempts resp = q_attempts r + 1
    \<and> map_of (drivers w') driver_id = Some rejecting
    \<and> (if \<exists>(k, d) \<in> set (drivers w). d_status d = AVAILABLE \<and> k \<noteq> driver_id
              \<and> float_lt (calculate_driver_score fl cfg d r) PosInf
        then \<exists>b bd. map_of (drivers w) b = Some bd \<and> d_status bd = AVAILABLE \<and> b \<noteq> driver_id
               \<and> float_lt (calculate_driver_score fl cfg bd r) PosInf
               \<and> (\<forall>(k, d) \<in> set (drivers w). d_status d = AVAILABLE \<and> k \<noteq> driver_id \<longrightarrow>
                     \<not> float_lt (calculate_driver_score fl cfg d r)
                         (calculate_driver_score fl cfg bd r))
               \<and> resp = r\<lparr>q_attempts := q_attempts r + 1, q_status := ASSIGNED,
                           q_assigned_driver_id := Some b\<rparr>
               \<and> drivers w' = modify b (\<lambda>d. d\<lparr>d_status := ON_TRIP,
                                   d_assigned_request_id := Some request_id\<rparr>) (drivers w)
               \<and> map_of (drivers w') b =
                   Some (bd\<lparr>d_status := ON_TRIP, d_assigned_request_id := Some request_id\<rparr>)
        else resp = r\<lparr>q_attempts := q_attempts r + 1, q_status := FAILED,
                       q_assigned_driver_id := None\<rparr>
           \<and> drivers w' = drivers w)
    \<and> (\<forall>k. k \<noteq> request_id \<longrightarrow> map_of (requests w') k = map_of (requests w) k)
    \<and> riders w' = riders w \<and> current_time w' = current_time w"
proof -
  let ?ds = "drivers w"
  let ?P = "\<lambda>(k, driver). d_status driver = AVAILABLE \<and> d_id driver \<notin> set [driver_id]"
  let ?cands = "map fst (filter ?P ?ds)"
  let ?request = "r\<lparr>q_attempts := q_attempts r + 1\<rparr>"
  let ?rs = "modify request_id (\<lambda>r. r\<lparr>q_attempts := q_attempts r + 1\<rparr>) (requests w)"
  let ?s = "\<lambda>d::Driver. calculate_driver_score fl cfg d r"
  have outer: "reject_request fl cfg request_id driver_id w
                 = reject_request_internal fl cfg request_id driver_id w"
    using rq dr by (simp add: reject_request_def)
  have mem: "\<And>k d. (k, d) \<in> set (filter ?P ?ds) \<longleftrightarrow>
               (k, d) \<in> set ?ds \<and> d_status d = AVAILABLE \<and> k \<noteq> driver_id"
    using ids by auto
  have res: "\<forall>k \<in> set ?cands. map_of ?ds k \<noteq> None"
    by (rule filter_keys_resolve)
  show ?thesis
  proof (cases "\<exists>(k, d) \<in> set ?ds. d_status d = AVAILABLE \<and> k \<noteq> driver_id
                  \<and> float_lt (?s d) PosInf")
    case False
    have none: "\<forall>k \<in> set ?cands. \<forall>d. map_of ?ds k = Some d \<longrightarrow>
                  \<not> float_lt (calculate_driver_score fl cfg d ?request) PosInf"
    proof (intro ballI allI impI)
      fix k d assume k: "k \<in> set ?cands" and d: "map_of ?ds k = Some d"
      from k obtain d1 where "(k, d1) \<in> set (filter ?P ?ds)" by auto
      with mem have "(k, d1) \<in> set ?ds" "d_status d1 = AVAILABLE" "k \<noteq> driver_id" by auto
      with dk d have "(k, d) \<in> set ?ds" "d_status d = AVAILABLE" "k \<noteq> driver_id" by auto
      with False have "\<not> float_lt (?s d) PosInf" by blast
      then show "\<not> float_lt (calculate_driver_score fl cfg d ?request) PosInf"
        by (simp add: score_ignores_attempts)
    qed
    have fb: "find_best_driver fl cfg ?ds ?request [driver_id] = None"
      using best_scan_fresh_none [OF none] by (simp add: find_best_driver_def Let_def)
    let ?resp = "r\<lparr>q_attempts := q_attempts r + 1, q_status := FAILED,
                    q_assigned_driver_id := None\<rparr>"
    let ?w' = "w\<lparr>requests := modify request_id (\<lambda>r. r\<lparr>q_status := FAILED,
                         q_assigned_driver_id := None\<rparr>) ?rs\<rparr>"
    have e: "reject_request_internal fl cfg request_id driver_id w = Inr (?w', ?resp)"
      using rq(1) fb by (simp add: reject_request_internal_def Let_def)
    have "map_of (requests ?w') request_id = Some ?resp"
      using rq(1) by (simp add: map_of_modify)
    moreover have "\<forall>k. k \<noteq> request_id \<longrightarrow> map_of (requests ?w') k = map_of (requests w) k"
      by (simp add: map_of_modify)
    ultimately show ?thesis
      using outer e False dr
      by (intro exI [of _ ?w'] exI [of _ ?resp]) simp
  next
    case True
    then obtain k0 d0 where k0: "(k0, d0) \<in> set ?ds" "d_status d0 = AVAILABLE"
      "k0 \<noteq> driver_id" "float_lt (?s d0) PosInf"
      by blast
    with mem have "(k0, d0) \<in> set (filter ?P ?ds)" by blast
    then have k0c: "k0 \<in> set ?cands" by force
    have ne: "?cands \<noteq> []"
    proof
      assume "?cands = []"
      with k0c show False by (simp only: set_simps empty_iff)
    qed
    from k0(1) dk have l0: "map_of ?ds k0 = Some d0" by simp
    from k0(4) have "float_lt (calculate_driver_score fl cfg d0 ?request) PosInf"
      by (simp add: score_ignores_attempts)
    with l0 have "\<exists>d. map_of ?ds k0 = Some d
                \<and> float_lt (calculate_driver_score fl cfg d ?request) PosInf"
      by blast
    with k0c
    have ex: "\<exists>k \<in> set ?cands. \<exists>d. map_of ?ds k = Some d
                \<and> float_lt (calculate_driver_score fl cfg d ?request) PosInf"
      by (rule bexI [rotated])
    from best_scan_fresh_min [OF res ex] obtain b bd where
      b: "fst (best_scan fl cfg ?ds ?request ?cands (None, PosInf)) = Some b"
        "b \<in> set ?cands" "map_of ?ds b = Some bd"
        "float_lt (calculate_driver_score fl cfg bd ?request) PosInf"
      and mn: "\<forall>k \<in> set ?cands. \<forall>d. map_of ?ds k = Some d \<longrightarrow>
                 \<not> float_lt (calculate_driver_score fl cfg d ?request)
                     (calculate_driver_score fl cfg bd ?request)"
      by blast
    from b(2) obtain d where "(b, d) \<in> set (filter ?P ?ds)" by auto
    with mem have "(b, d) \<in> set ?ds" "d_status d = AVAILABLE" "b \<noteq> driver_id" by auto
    with dk b(3) have bd: "d_status bd = AVAILABLE" "b \<noteq> driver_id" by auto
    from b(3) ids have idb: "d_id bd = b" by (auto dest: map_of_SomeD)
    from b(4) have fin: "float_lt (?s bd) PosInf"
      by (simp add: score_ignores_attempts)
    have least: "\<forall>(k, d) \<in> set ?ds. d_status d = AVAILABLE \<and> k \<noteq> driver_id \<longrightarrow>
                     \<not> float_lt (?s d) (?s bd)"
    proof (clarify)
      fix k d assume kd: "(k, d) \<in> set ?ds" "d_status d = AVAILABLE" "k \<noteq> driver_id"
        and lt: "float_lt (?s d) (?s bd)"
      from kd mem have "(k, d) \<in> set (filter ?P ?ds)" by blast
      then have "k \<in> set ?cands" by force
      moreover from kd(1) dk have "map_of ?ds k = Some d" by simp
      ultimately have "\<not> float_lt (calculate_driver_score fl cfg d ?request)
                         (calculate_driver_score fl cfg bd ?request)"
        using mn by blast
      with lt show False
        by (simp add: score_ignores_attempts)
    qed
    let ?resp = "r\<lparr>q_attempts := q_attempts r + 1, q_status := ASSIGNED,
                    q_assigned_driver_id := Some b\<rparr>"
    let ?ds' = "modify b (\<lambda>d. d\<lparr>d_status := ON_TRIP,
                   d_assigned_request_id := Some request_id\<rparr>) ?ds"
    let ?w' = "w\<lparr>drivers := ?ds',
                requests := modify request_id (\<lambda>r. r\<lparr>q_status := ASSIGNED,
                         q_assigned_driver_id := Some b\<rparr>) ?rs\<rparr>"
    have fb: "find_best_driver fl cfg ?ds ?request [driver_id] = Some b"
      using ne b(1) by (simp add: find_best_driver_def Let_def)
    have e: "reject_request_internal fl cfg request_id driver_id w = Inr (?w', ?resp)"
      using rq(1) fb b(3) idb by (simp add: reject_request_internal_def Let_def)
    have "map_of (requests ?w') request_id = Some ?resp"
      using rq(1) by (simp add: map_of_modify)
    moreover have "\<forall>k. k \<noteq> request_id \<longrightarrow> map_of (requests ?w') k = map_of (requests w) k"
      by (simp add: map_of_modify)
    moreover have "map_of (drivers ?w') driver_id = Some rejecting"
      using dr bd(2) by (simp add: map_of_modify)
    moreover have "map_of (drivers ?w') b =
                   Some (bd\<lparr>d_status := ON_TRIP, d_assigned_request_id := Some request_id\<rparr>)"
      using b(3) by (simp add: map_of_modify)
    moreover have "\<exists>b bd. map_of ?ds b = Some bd \<and> d_status bd = AVAILABLE \<and> b \<noteq> driver_id
               \<and> float_lt (?s bd) PosInf
               \<and> (\<forall>(k, d) \<in> set ?ds. d_status d = AVAILABLE \<and> k \<noteq> driver_id \<longrightarrow>
                     \<not> float_lt (?s d) (?s bd))
               \<and> ?resp = r\<lparr>q_attempts := q_attempts r + 1, q_status := ASSIGNED,
                           q_assigned_driver_id := Some b\<rparr>
               \<and> drivers ?w' = modify b (\<lambda>d. d\<lparr>d_status := ON_TRIP,
                                   d_assigned_request_id := Some request_id\<rparr>) ?ds
               \<and> map_of (drivers ?w') b =
                   Some (bd\<lparr>d_status := ON_TRIP, d_assigned_request_id := Some request_id\<rparr>)"
      using b(3) bd fin least calculation(4)
      by (intro exI [of _ b] exI [of _ bd]) simp
    ultimately show ?thesis
      using outer e True
      by (intro exI [of _ ?w'] exI [of _ ?resp]) simp
  qed
qed

text \<open>
  With two candidates the later one in the dictionary is taken when it is nearer: in the
  sample world, driver 3 rejects request 2 (pickup (15,15)); driver 1 scores 30 and
  driver 2 scores 20, and the request goes to driver 2.
\<close>

lemma reject_request_takes_nearer_driver:
  "reject_request range_rounding default_config 2 3 (init_sample_data 0) =
     Inr ((init_sample_data 0)
            \<lparr>drivers := [(1, new_driver 1 0 0 AVAILABLE),
                         (2, (new_driver 2 5 5 ON_TRIP)\<lparr>d_assigned_request_id := Some 2\<rparr>),
                         (3, new_driver 3 10 10 OFFLINE)],
             requests := [(1, new_request 1 1 2 2 8 8),
                          (2, (new_request 2 2 15 15 20 20)\<lparr>q_attempts := 1,
                                q_status := ASSIGNED, q_assigned_driver_id := Some 2\<rparr>)]\<rparr>,
          (new_request 2 2 15 15 20 20)\<lparr>q_attempts := 1, q_status := ASSIGNED,
             q_assigned_driver_id := Some 2\<rparr>)"
  by (simp add: reject_request_def reject_request_internal_def find_best_driver_def
      init_sample_data_def eval_defs)

text \<open>
  C10. The claim says that the request is marked Failed only when no Available driver
  other than the rejecting one exists. The code does not do that. \<open>find_best_driver\<close>
  starts from \<open>best_score = float('inf')\<close> and takes a driver only when its score
  is below \<open>best_score\<close>, so a driver whose score is \<open>inf\<close> is never taken and
  the function returns \<open>None\<close> although its candidate list is not empty. Driver 1
  rejects request 1, whose pickup point is \<open>(-2^1023, 0)\<close>; driver 2 is Available
  at \<open>(2^1023, 0)\<close>; the distance overflows, and the request is marked Failed while
  driver 2 stays Available.
\<close>

theorem reject_request_overlooks_far_driver:
  "reject_request range_rounding default_config 1 1 far_driver_world =
     Inr (far_driver_world_after,
          (new_request 1 1 (- (2 ^ 1023)) 0 8 8)\<lparr>q_attempts := 1, q_status := FAILED\<rparr>)
   \<and> map_of (drivers far_driver_world) 2 = Some (new_driver 2 (2 ^ 1023) 0 AVAILABLE)
   \<and> d_status (new_driver 2 (2 ^ 1023) 0 AVAILABLE) = AVAILABLE
   \<and> d_id (new_driver 2 (2 ^ 1023) 0 AVAILABLE) \<noteq> 1"
  by (simp add: reject_request_def reject_request_internal_def find_best_driver_def
      far_driver_world_def far_driver_world_after_def eval_defs)

section \<open>Scenario A\<close>

lemmas tick_eval_defs = tick_internal_def tick_driver_def move_towards_target_def
  calculate_manhattan_distance_def truthy_def modify_def new_driver_def new_request_def
  scenario_A_world_def scenario_A_trip_def scenario_A_done_def reached_pickup_event_def
  completed_event_def Let_def

lemma scenario_A_dispatch:
  assumes "REJECTION_RATE cfg = 0" and "0 \<le> rnd i"
    and "float_lt (calculate_driver_score fl cfg (new_driver 1 0 0 AVAILABLE)
           (new_request 1 1 2 2 8 8)) PosInf"
  shows "dispatch_ride_internal fl cfg rnd i scenario_A_world =
           Inr (scenario_A_trip 0 0 False 0,
                [assigned_result (new_request 1 1 2 2 8 8) (new_driver 1 0 0 AVAILABLE) 0],
                Suc i)"
  using assms
  by (simp add: dispatch_ride_internal_def dispatch_request_def offer_loop.simps
      simulate_driver_rejection_def modify_def new_driver_def new_request_def
      scenario_A_world_def scenario_A_trip_def assigned_result_def Let_def)

lemma scenario_A_tick_pickup:
  assumes "MOVE_SPEED cfg = 1"
  shows "tick_internal cfg (scenario_A_trip 0 0 False t) = (scenario_A_trip 1 1 False (t + 1), [])"
    and "tick_internal cfg (scenario_A_trip 1 1 False t)
           = (scenario_A_trip 2 2 True (t + 1), [reached_pickup_event])"
  using assms by (simp_all add: tick_eval_defs)

lemma scenario_A_tick_dropoff:
  assumes "MOVE_SPEED cfg = 1" and "2 \<le> x" and "x < 7"
  shows "tick_internal cfg (scenario_A_trip x x True t)
           = (scenario_A_trip (x + 1) (x + 1) True (t + 1), [])"
  using assms by (simp add: tick_eval_defs)

lemma scenario_A_tick_done:
  assumes "MOVE_SPEED cfg = 1"
  shows "tick_internal cfg (scenario_A_trip 7 7 True t)
           = (scenario_A_done (t + 1), [completed_event])"
  using assms by (simp add: tick_eval_defs)

lemma scenario_A_ticks:
  assumes "MOVE_SPEED cfg = 1"
  shows "tick_calls cfg 1 (scenario_A_trip 0 0 False 0) = (scenario_A_trip 1 1 False 1, [[]])"
    and "tick_calls cfg 2 (scenario_A_trip 0 0 False 0)
           = (scenario_A_trip 2 2 True 2, [[], [reached_pickup_event]])"
    and "tick_calls cfg 4 (scenario_A_trip 0 0 False 0)
           = (scenario_A_trip 4 4 True 4, [[], [reached_pickup_event], [], []])"
    and "tick_calls cfg 8 (scenario_A_trip 0 0 False 0)
           = (scenario_A_done 8,
              [[], [reached_pickup_event], [], [], [], [], [], [completed_event]])"
  using assms
  by (simp_all add: numeral_eq_Suc scenario_A_tick_pickup scenario_A_tick_dropoff
      scenario_A_tick_done)

text \<open>
  C2, amended. One Available driver at (0,0), one Waiting request with pickup (2,2) and
  dropoff (8,8), rejection rate 0 and speed 1, and dispatch weights with which the
  driver's score is below \<open>float('inf')\<close> (with the weights of config.py it is
  \<open>1.0 * 4 + 0.1 * 0 = 4\<close>, exactly). Dispatch assigns the driver with
  \<open>attempts = 0\<close>. One step moves both coordinates, so the first Tick brings the driver
  to (1,1) with no event, and the second Tick brings it to (2,2) and emits
  \<open>reached_pickup\<close>: exactly 2 Tick calls are needed. The \<open>completed\<close> event is
  emitted 6 ticks after that, on the 8th Tick, which leaves the driver Available at (8,8)
  and the request Completed.
\<close>

theorem scenario_A_pickup_after_two_ticks:
  assumes "REJECTION_RATE cfg = 0" and "MOVE_SPEED cfg = 1" and "0 \<le> rnd i"
    and "float_lt (calculate_driver_score fl cfg (new_driver 1 0 0 AVAILABLE)
           (new_request 1 1 2 2 8 8)) PosInf"
  shows "dispatch_ride_internal fl cfg rnd i scenario_A_world =
           Inr (scenario_A_trip 0 0 False 0,
                [assigned_result (new_request 1 1 2 2 8 8) (new_driver 1 0 0 AVAILABLE) 0],
                Suc i)
       \<and> tick_calls cfg 1 (scenario_A_trip 0 0 False 0) = (scenario_A_trip 1 1 False 1, [[]])
       \<and> tick_calls cfg 2 (scenario_A_trip 0 0 False 0)
           = (scenario_A_trip 2 2 True 2, [[], [reached_pickup_event]])
       \<and> tick_calls cfg 8 (scenario_A_trip 0 0 False 0)
           = (scenario_A_done 8,
              [[], [reached_pickup_event], [], [], [], [], [], [completed_event]])"
  using scenario_A_dispatch [of cfg rnd i fl, OF assms(1,3,4)]
    scenario_A_ticks(1,2,4) [OF assms(2)]
  by (intro conjI)

text \<open>
  C2, as stated, fails: in the scenario the driver is at (2,2) after the 2nd Tick, which
  is the one that emits \<open>reached_pickup\<close>; the 4th Tick emits nothing and leaves the
  driver at (4,4), on its way to the dropoff point.
\<close>

theorem scenario_A_four_ticks_counterexample:
  "dispatch_ride_internal range_rounding scenario_A_config coin 0 scenario_A_world =
           Inr (scenario_A_trip 0 0 False 0,
                [assigned_result (new_request 1 1 2 2 8 8) (new_driver 1 0 0 AVAILABLE) 0],
                1)
   \<and> tick_calls scenario_A_config 2 (scenario_A_trip 0 0 False 0)
       = (scenario_A_trip 2 2 True 2, [[], [reached_pickup_event]])
   \<and> tick_calls scenario_A_config 4 (scenario_A_trip 0 0 False 0)
       = (scenario_A_trip 4 4 True 4, [[], [reached_pickup_event], [], []])"
proof -
  have r: "REJECTION_RATE scenario_A_config = 0" and m: "MOVE_SPEED scenario_A_config = 1"
    by (simp_all add: scenario_A_config_def default_config_def)
  have c: "0 \<le> coin 0" by (simp add: coin_def)
  have s: "float_lt (calculate_driver_score range_rounding scenario_A_config
             (new_driver 1 0 0 AVAILABLE) (new_request 1 1 2 2 8 8)) PosInf"
    by (simp add: scenario_A_config_def eval_defs)
  from scenario_A_dispatch [of scenario_A_config coin 0, OF r c s] scenario_A_ticks(2,3) [OF m]
  show ?thesis by simp
qed

theorem scenario_A_pickup_after_two_ticks_witness:
  "dispatch_ride_internal range_rounding scenario_A_config coin 0 scenario_A_world =
           Inr (scenario_A_trip 0 0 False 0,
                [assigned_result (new_request 1 1 2 2 8 8) (new_driver 1 0 0 AVAILABLE) 0],
                1)
   \<and> tick_calls scenario_A_config 8 (scenario_A_trip 0 0 False 0)
           = (scenario_A_done 8,
              [[], [reached_pickup_event], [], [], [], [], [], [completed_event]])"
proof -
  have r: "REJECTION_RATE scenario_A_config = 0" and m: "MOVE_SPEED scenario_A_config = 1"
    by (simp_all add: scenario_A_config_def default_config_def)
  have c: "0 \<le> coin 0" by (simp add: coin_def)
  have s: "float_lt (calculate_driver_score range_rounding scenario_A_config
             (new_driver 1 0 0 AVAILABLE) (new_request 1 1 2 2 8 8)) PosInf"
    by (simp add: scenario_A_config_def eval_defs)
  from scenario_A_pickup_after_two_ticks [of scenario_A_config coin 0, OF r m c s]
  show ?thesis by simp
qed

end
